theory Spec2Isabelle
  imports Complex_Main
begin

section \<open>Routing table of server.js\<close>

text \<open>
  The Express application registers its GET routes in this order (server.js lines 54, 76,
  158, 188, 247, 299, 334): /api/health, /api/content, /api/content/:id, /api/search,
  /api/stats, /api/content/recent, /api/content/by-author. Express tries the layers in
  registration order and runs the first one whose pattern matches; none of the handlers
  calls \<open>next()\<close>, so at most one route handler runs per request, and the final
  \<open>app.use('*', ...)\<close> answers 404 when no route matched.

  A route pattern is a list of segments: a literal, compared without regard to ASCII case
  (Express routing is case-insensitive by default), or a named parameter, which matches
  any non-empty text without a slash. One trailing slash is accepted (non-strict routing).
  The rate limiter and the other middleware in front of the routes are not modelled.
\<close>

datatype seg = Lit string | Param string

datatype handler =
  Health | ListContent | ContentById | Search | Stats | Recent | ByAuthor | NotFound

datatype http_method = GET | HEAD | OtherMethod

definition lower_char :: "char \<Rightarrow> char" where
  "lower_char c =
     (let n = (of_char c :: nat) in if 65 \<le> n \<and> n \<le> 90 then char_of (n + 32) else c)"

definition lower :: "string \<Rightarrow> string" where
  "lower s = map lower_char s"

fun split_on :: "char \<Rightarrow> string \<Rightarrow> string list" where
  "split_on d [] = [[]]"
| "split_on d (c # cs) =
     (if c = d then [] # split_on d cs
      else (case split_on d cs of w # ws \<Rightarrow> (c # w) # ws | [] \<Rightarrow> [[c]]))"

definition path_segments :: "string \<Rightarrow> string list option" where
  "path_segments p =
     (case split_on (CHR ''/'') p of
        [] # rest \<Rightarrow>
          (if p = [] then None
           else Some (if rest \<noteq> [] \<and> last rest = [] then butlast rest else rest))
      | _ \<Rightarrow> None)"

fun match_segs :: "seg list \<Rightarrow> string list \<Rightarrow> (string \<times> string) list option" where
  "match_segs [] [] = Some []"
| "match_segs (Lit l # ps) (s # ss) =
     (if lower s = lower l then match_segs ps ss else None)"
| "match_segs (Param n # ps) (s # ss) =
     (if s \<noteq> [] then map_option (\<lambda>r. (n, s) # r) (match_segs ps ss) else None)"
| "match_segs _ _ = None"

definition routes :: "(seg list \<times> handler) list" where
  "routes =
     [([Lit ''api'', Lit ''health''], Health),
      ([Lit ''api'', Lit ''content''], ListContent),
      ([Lit ''api'', Lit ''content'', Param ''id''], ContentById),
      ([Lit ''api'', Lit ''search''], Search),
      ([Lit ''api'', Lit ''stats''], Stats),
      ([Lit ''api'', Lit ''content'', Lit ''recent''], Recent),
      ([Lit ''api'', Lit ''content'', Lit ''by-author''], ByAuthor)]"

fun first_match ::
  "(seg list \<times> handler) list \<Rightarrow> string list \<Rightarrow> handler \<times> (string \<times> string) list" where
  "first_match [] ss = (NotFound, [])"
| "first_match ((pat, h) # rs) ss =
     (case match_segs pat ss of Some ps \<Rightarrow> (h, ps) | None \<Rightarrow> first_match rs ss)"

definition dispatch :: "http_method \<Rightarrow> string \<Rightarrow> handler \<times> (string \<times> string) list" where
  "dispatch m p =
     (if m = OtherMethod then (NotFound, [])
      else (case path_segments p of
              None \<Rightarrow> (NotFound, [])
            | Some ss \<Rightarrow> first_match routes ss))"

section \<open>JavaScript strings, numbers and JSON\<close>

text \<open>
  Query-string values reach the handlers as strings; a destructuring default
  (\<open>page = 1\<close>) is a number. A JavaScript number is modelled as \<open>int option\<close>:
  \<open>Some n\<close> is the integer \<open>n\<close>, and \<open>None\<close> stands for every other number
  (NaN, an infinity, a fraction). Numeric strings other than an optionally signed run of
  decimal digits are therefore outside the fragment where the arithmetic is exact, and
  so are integers beyond what a double holds exactly. Query parameters are strings (the
  arrays and nested objects that the query parser builds from repeated or bracketed
  names are not modelled), and characters are 8-bit.
\<close>

type_synonym jsnum = "int option"

datatype jsval = VStr string | VNum jsnum

datatype json =
  JNull | JBool bool | JNum int | JStr string | JArr "json list" | JObj "(string \<times> json) list"

definition is_ws :: "char \<Rightarrow> bool" where
  "is_ws c = ((of_char c :: nat) \<in> {9, 10, 11, 12, 13, 32, 160})"

definition is_digit :: "char \<Rightarrow> bool" where
  "is_digit c = (let n = (of_char c :: nat) in 48 \<le> n \<and> n \<le> 57)"

definition digit_val :: "char \<Rightarrow> nat" where
  "digit_val c = (of_char c :: nat) - 48"

definition dec_value :: "string \<Rightarrow> nat" where
  "dec_value s = foldl (\<lambda>a c. 10 * a + digit_val c) 0 s"

definition is_hex :: "char \<Rightarrow> bool" where
  "is_hex c =
     (let n = (of_char c :: nat)
      in (48 \<le> n \<and> n \<le> 57) \<or> (65 \<le> n \<and> n \<le> 70) \<or> (97 \<le> n \<and> n \<le> 102))"

definition hex_val :: "char \<Rightarrow> nat" where
  "hex_val c =
     (let n = (of_char c :: nat)
      in if n \<le> 57 then n - 48 else if n \<le> 70 then n - 55 else n - 87)"

definition hex_value :: "string \<Rightarrow> nat" where
  "hex_value s = foldl (\<lambda>a c. 16 * a + hex_val c) 0 s"

definition dec_digits :: "string \<Rightarrow> nat option" where
  "dec_digits s = (if s \<noteq> [] \<and> list_all is_digit s then Some (dec_value s) else None)"

definition signed_dec :: "string \<Rightarrow> int option" where
  "signed_dec s =
     (case s of
        [] \<Rightarrow> None
      | c # r \<Rightarrow>
          if c = CHR ''-'' then map_option (\<lambda>n. - int n) (dec_digits r)
          else if c = CHR ''+'' then map_option int (dec_digits r)
          else map_option int (dec_digits s))"

definition trim :: "string \<Rightarrow> string" where
  "trim s = rev (dropWhile is_ws (rev (dropWhile is_ws s)))"

definition str_to_number :: "string \<Rightarrow> jsnum" where
  \<comment> \<open>ToNumber on a string, as the operators \<open>-\<close>, \<open>*\<close> and \<open>/\<close> apply it\<close>
  "str_to_number s = (let t = trim s in if t = [] then Some 0 else signed_dec t)"

definition parse_int :: "string \<Rightarrow> jsnum" where
  \<comment> \<open>\<open>parseInt(s)\<close> with no radix: leading blanks, a sign, an optional 0x, then the
      longest run of digits; NaN when that run is empty\<close>
  "parse_int s =
     (let s1 = dropWhile is_ws s;
          neg = (s1 \<noteq> [] \<and> hd s1 = CHR ''-'');
          s2 = (if s1 \<noteq> [] \<and> (hd s1 = CHR ''-'' \<or> hd s1 = CHR ''+'') then tl s1 else s1);
          hex = (case s2 of a # b # r \<Rightarrow> a = CHR ''0'' \<and> (b = CHR ''x'' \<or> b = CHR ''X'')
                          | _ \<Rightarrow> False);
          ds = (if hex then takeWhile is_hex (drop 2 s2) else takeWhile is_digit s2);
          v = (if hex then hex_value ds else dec_value ds)
      in if ds = [] then None else Some (if neg then - int v else int v))"

definition digit_char :: "nat \<Rightarrow> char" where
  "digit_char d = char_of (48 + d)"

fun show_nat :: "nat \<Rightarrow> string" where
  "show_nat n =
     (if n < 10 then [digit_char n] else show_nat (n div 10) @ [digit_char (n mod 10)])"

declare show_nat.simps [simp del]

definition show_int :: "int \<Rightarrow> string" where
  "show_int i = (if i < 0 then CHR ''-'' # show_nat (nat (- i)) else show_nat (nat i))"

fun to_number :: "jsval \<Rightarrow> jsnum" where
  "to_number (VStr s) = str_to_number s"
| "to_number (VNum n) = n"

fun to_string :: "jsval \<Rightarrow> string" where
  "to_string (VStr s) = s"
| "to_string (VNum (Some n)) = show_int n"
| "to_string (VNum None) = ''NaN''"

fun parse_int_val :: "jsval \<Rightarrow> jsnum" where
  "parse_int_val (VStr s) = parse_int s"
| "parse_int_val (VNum n) = n"

fun js_sub :: "jsnum \<Rightarrow> jsnum \<Rightarrow> jsnum" where
  "js_sub (Some a) (Some b) = Some (a - b)"
| "js_sub _ _ = None"

fun js_mul :: "jsnum \<Rightarrow> jsnum \<Rightarrow> jsnum" where
  "js_mul (Some a) (Some b) = Some (a * b)"
| "js_mul _ _ = None"

fun ceil_div :: "jsnum \<Rightarrow> jsnum \<Rightarrow> jsnum" where
  \<comment> \<open>\<open>Math.ceil(a / b)\<close>; a division by zero gives an infinity or NaN\<close>
  "ceil_div (Some a) (Some b) = (if b = 0 then None else Some \<lceil>real_of_int a / real_of_int b\<rceil>)"
| "ceil_div _ _ = None"

definition num_json :: "jsnum \<Rightarrow> json" where
  \<comment> \<open>JSON has no NaN and no infinity: \<open>JSON.stringify\<close> writes them as null\<close>
  "num_json n = (case n of None \<Rightarrow> JNull | Some i \<Rightarrow> JNum i)"

definition hex_char :: "nat \<Rightarrow> char" where
  "hex_char d = (if d < 10 then char_of (48 + d) else char_of (87 + d))"

definition escape_char :: "char \<Rightarrow> string" where
  "escape_char c =
     (let n = (of_char c :: nat) in
      if n = 34 then [CHR 0x5C, CHR 0x22]
      else if n = 92 then [CHR 0x5C, CHR 0x5C]
      else if n = 8 then [CHR 0x5C, CHR ''b'']
      else if n = 9 then [CHR 0x5C, CHR ''t'']
      else if n = 10 then [CHR 0x5C, CHR ''n'']
      else if n = 12 then [CHR 0x5C, CHR ''f'']
      else if n = 13 then [CHR 0x5C, CHR ''r'']
      else if n < 32 then
        [CHR 0x5C, CHR ''u'', CHR ''0'', CHR ''0'', hex_char (n div 16), hex_char (n mod 16)]
      else [c])"

definition quote :: "string \<Rightarrow> string" where
  "quote s = CHR 0x22 # concat (map escape_char s) @ [CHR 0x22]"

fun join_comma :: "string list \<Rightarrow> string" where
  "join_comma [] = []"
| "join_comma [x] = x"
| "join_comma (x # y # ys) = x @ CHR '','' # join_comma (y # ys)"

fun stringify :: "json \<Rightarrow> string" where
  "stringify JNull = ''null''"
| "stringify (JBool b) = (if b then ''true'' else ''false'')"
| "stringify (JNum n) = show_int n"
| "stringify (JStr s) = quote s"
| "stringify (JArr xs) = CHR ''['' # join_comma (map stringify xs) @ '']''"
| "stringify (JObj kvs) =
     CHR ''{'' # join_comma (map (\<lambda>(k, v). quote k @ CHR '':'' # stringify v) kvs) @ ''}''"

declare stringify.simps [simp del]

text \<open>
  \<open>req.query\<close>: the own properties of the parsed query object with their string values,
  in the order in which the object enumerates them (for names that are not array indices,
  the order of the query string). Names are distinct.
\<close>

type_synonym query = "(string \<times> string) list"

definition param :: "query \<Rightarrow> string \<Rightarrow> string option" where
  "param q k = map_of q k"

definition param_or :: "query \<Rightarrow> string \<Rightarrow> jsval \<Rightarrow> jsval" where
  \<comment> \<open>a destructuring default applies to a missing (undefined) property only\<close>
  "param_or q k d = (case map_of q k of None \<Rightarrow> d | Some s \<Rightarrow> VStr s)"

definition truthy :: "string option \<Rightarrow> bool" where
  "truthy v = (case v of None \<Rightarrow> False | Some s \<Rightarrow> s \<noteq> [])"

definition query_json :: "query \<Rightarrow> json" where
  "query_json q = JObj (map (\<lambda>(k, v). (k, JStr v)) q)"

definition opt_field :: "string \<Rightarrow> string option \<Rightarrow> (string \<times> json) list" where
  \<comment> \<open>\<open>JSON.stringify\<close> leaves out a property whose value is undefined\<close>
  "opt_field k v = (case v of None \<Rightarrow> [] | Some s \<Rightarrow> [(k, JStr s)])"

section \<open>The store: the content table and the statements sent to it\<close>

text \<open>
  The relational store is outside the repository. It is modelled as the list of the rows
  of the table \<open>content\<close> with the usual meaning of the statements the handlers send:
  WHERE keeps the rows that satisfy every condition (a comparison with NULL keeps none),
  ORDER BY created_date DESC sorts (rows of equal date keep their table order here), OFFSET
  drops and LIMIT takes; a negative or non-integer LIMIT or OFFSET argument is an error.
  The driver sends every argument as text and returns COUNT(*) as text. The ILIKE operator
  is a parameter, the id column is compared as text, and \<open>columns\<close> is the row as the
  driver returns it for SELECT *.
\<close>

record content =
  cid :: string
  title :: "string option"
  content_text :: "string option"
  author_name :: "string option"
  ai_topics :: "string option"
  source_type :: "string option"
  media_type :: "string option"
  file_format :: "string option"
  ai_processing_status :: "string option"
  word_count :: "int option"
  created_date :: int
  columns :: "(string \<times> json) list"

datatype pred =
  TypeIs nat | FormatIs nat | AuthorLike nat | TextLike nat | IdIs nat | StatusIs nat
  | MediaNotNull

datatype bound = NoBound | Arg nat | Literal nat

datatype group_col = BySource | ByMedia

datatype stmt =
  Count "pred list"
  | Select "string list option" "pred list" bool bound bound
  | GroupCount group_col "pred list"
  | AvgWordCount

datatype result =
  Rows "json list" | CountRow string | GroupRows "(string option \<times> string) list"
  | AvgRow "rat option"

record env =
  ilike :: "string \<Rightarrow> string \<Rightarrow> bool"
  json_parse :: "string \<Rightarrow> json option"
  iso_time :: "nat \<Rightarrow> string"

fun placeholder :: "pred \<Rightarrow> nat option" where
  "placeholder (TypeIs i) = Some i"
| "placeholder (FormatIs i) = Some i"
| "placeholder (AuthorLike i) = Some i"
| "placeholder (TextLike i) = Some i"
| "placeholder (IdIs i) = Some i"
| "placeholder (StatusIs i) = Some i"
| "placeholder MediaNotNull = None"

definition bound_at :: "'a list \<Rightarrow> nat \<Rightarrow> bool" where
  "bound_at args i = (1 \<le> i \<and> i \<le> length args)"

definition arg_text :: "jsval list \<Rightarrow> nat \<Rightarrow> string" where
  "arg_text args i = to_string (args ! (i - 1))"

definition like_opt :: "env \<Rightarrow> string \<Rightarrow> string option \<Rightarrow> bool" where
  "like_opt e pat v = (case v of None \<Rightarrow> False | Some s \<Rightarrow> ilike e pat s)"

fun sat :: "env \<Rightarrow> jsval list \<Rightarrow> content \<Rightarrow> pred \<Rightarrow> bool" where
  "sat e args r (TypeIs i) =
     (source_type r = Some (arg_text args i) \<or> media_type r = Some (arg_text args i))"
| "sat e args r (FormatIs i) = (file_format r = Some (arg_text args i))"
| "sat e args r (AuthorLike i) = like_opt e (arg_text args i) (author_name r)"
| "sat e args r (TextLike i) =
     (like_opt e (arg_text args i) (title r) \<or> like_opt e (arg_text args i) (content_text r)
      \<or> like_opt e (arg_text args i) (author_name r) \<or> like_opt e (arg_text args i) (ai_topics r))"
| "sat e args r (IdIs i) = (cid r = arg_text args i)"
| "sat e args r (StatusIs i) = (ai_processing_status r = Some (arg_text args i))"
| "sat e args r MediaNotNull = (media_type r \<noteq> None)"

definition matching :: "env \<Rightarrow> jsval list \<Rightarrow> pred list \<Rightarrow> content list \<Rightarrow> content list" where
  "matching e args conds tbl = filter (\<lambda>r. list_all (sat e args r) conds) tbl"

definition conds_bound :: "jsval list \<Rightarrow> pred list \<Rightarrow> bool" where
  "conds_bound args conds =
     list_all (\<lambda>c. case placeholder c of None \<Rightarrow> True | Some i \<Rightarrow> bound_at args i) conds"

fun pg_int8 :: "jsval \<Rightarrow> int option" where
  "pg_int8 (VNum n) = n"
| "pg_int8 (VStr s) = signed_dec (trim s)"

fun bound_value :: "jsval list \<Rightarrow> bound \<Rightarrow> nat option option" where
  \<comment> \<open>\<open>None\<close>: the statement fails; \<open>Some None\<close>: no bound\<close>
  "bound_value args NoBound = Some None"
| "bound_value args (Literal n) = Some (Some n)"
| "bound_value args (Arg i) =
     (if bound_at args i then
        (case pg_int8 (args ! (i - 1)) of
           None \<Rightarrow> None
         | Some n \<Rightarrow> if n < 0 then None else Some (Some (nat n)))
      else None)"

definition row_json :: "string list option \<Rightarrow> content \<Rightarrow> json" where
  "row_json cols r =
     (case cols of
        None \<Rightarrow> JObj (columns r)
      | Some cs \<Rightarrow> JObj (filter (\<lambda>kv. fst kv \<in> set cs) (columns r)))"

definition newest_first :: "content list \<Rightarrow> content list" where
  "newest_first rs = sort_key (\<lambda>r. - created_date r) rs"

definition window :: "nat option \<Rightarrow> nat option \<Rightarrow> 'a list \<Rightarrow> 'a list" where
  "window lmt ofs xs =
     (let ys = (case ofs of None \<Rightarrow> xs | Some k \<Rightarrow> drop k xs)
      in case lmt of None \<Rightarrow> ys | Some n \<Rightarrow> take n ys)"

definition group_key :: "group_col \<Rightarrow> content \<Rightarrow> string option" where
  "group_key g r = (case g of BySource \<Rightarrow> source_type r | ByMedia \<Rightarrow> media_type r)"

definition group_rows :: "group_col \<Rightarrow> content list \<Rightarrow> (string option \<times> string) list" where
  "group_rows g rs =
     map (\<lambda>k. (k, show_nat (length (filter (\<lambda>r. group_key g r = k) rs))))
         (remdups (map (group_key g) rs))"

definition avg_words :: "content list \<Rightarrow> rat option" where
  "avg_words rs =
     (let ws = concat (map (\<lambda>r. case word_count r of None \<Rightarrow> [] | Some n \<Rightarrow> [n]) rs)
      in if ws = [] then None else Some (of_int (sum_list ws) / of_nat (length ws)))"

fun exec :: "env \<Rightarrow> content list \<Rightarrow> stmt \<Rightarrow> jsval list \<Rightarrow> result option" where
  "exec e tbl (Count conds) args =
     (if conds_bound args conds
      then Some (CountRow (show_nat (length (matching e args conds tbl)))) else None)"
| "exec e tbl (Select cols conds ordered lmt ofs) args =
     (if conds_bound args conds then
        (case (bound_value args lmt, bound_value args ofs) of
           (Some l, Some k) \<Rightarrow>
             Some (Rows (map (row_json cols)
                     (window l k
                        ((if ordered then newest_first else (\<lambda>rs. rs))
                           (matching e args conds tbl)))))
         | _ \<Rightarrow> None)
      else None)"
| "exec e tbl (GroupCount g conds) args =
     (if conds_bound args conds
      then Some (GroupRows (group_rows g (matching e args conds tbl))) else None)"
| "exec e tbl AvgWordCount args = Some (AvgRow (avg_words tbl))"

section \<open>The cache and the world a handler runs in\<close>

text \<open>
  The cache maps a key to a value with the time at which it expires; a lookup returns a
  value only before that time. Each of the three outside calls can fail (the awaited
  promise rejects): the cache read, the cache write and a store query. The trace records
  the calls a handler makes, in order.
\<close>

record world =
  cache :: "string \<rightharpoonup> string \<times> nat"
  now :: nat
  table :: "content list"
  cache_get_fails :: bool
  cache_set_fails :: bool
  store_fails :: bool

datatype event =
  CacheGet string | CacheSetEx string nat string | StoreQuery stmt "jsval list"

record outcome =
  status :: nat
  body :: json
  after :: world
  trace :: "event list"

definition redis_get :: "world \<Rightarrow> string \<Rightarrow> string option option" where
  \<comment> \<open>\<open>None\<close>: the call fails; \<open>Some None\<close>: null, no live entry\<close>
  "redis_get w k =
     (if cache_get_fails w then None
      else Some (case cache w k of
                   None \<Rightarrow> None
                 | Some (v, expires) \<Rightarrow> if now w < expires then Some v else None))"

definition redis_setEx :: "world \<Rightarrow> string \<Rightarrow> nat \<Rightarrow> string \<Rightarrow> world option" where
  "redis_setEx w k ttl v =
     (if cache_set_fails w then None
      else Some (w\<lparr>cache := (cache w)(k \<mapsto> (v, now w + ttl))\<rparr>))"

definition pool_query :: "env \<Rightarrow> world \<Rightarrow> stmt \<Rightarrow> jsval list \<Rightarrow> result option" where
  "pool_query e w s args = (if store_fails w then None else exec e (table w) s args)"

definition reply :: "nat \<Rightarrow> json \<Rightarrow> world \<Rightarrow> event list \<Rightarrow> outcome" where
  "reply st b w t = \<lparr>status = st, body = b, after = w, trace = t\<rparr>"

definition error500 :: "world \<Rightarrow> event list \<Rightarrow> outcome" where
  \<comment> \<open>the \<open>catch\<close> block of every handler\<close>
  "error500 w t = reply 500 (JObj [(''error'', JStr ''Internal server error'')]) w t"

definition cache_lookup :: "env \<Rightarrow> world \<Rightarrow> string \<Rightarrow> outcome \<Rightarrow> outcome" where
  \<comment> \<open>\<open>const cached = await redisClient.get(cacheKey);
      if (cached) { return res.json(JSON.parse(cached)); }\<close> and then \<open>miss\<close>, the rest of
      the \<open>try\<close> block (lines 83-87, 163-167, 199-203, 250-254)\<close>
  "cache_lookup e w key miss =
     (case redis_get w key of
        None \<Rightarrow> error500 w [CacheGet key]
      | Some cached \<Rightarrow>
          if truthy cached then
            (case json_parse e (the cached) of
               None \<Rightarrow> error500 w [CacheGet key]
             | Some v \<Rightarrow> reply 200 v w [CacheGet key])
          else miss)"

definition cache_store_reply ::
  "world \<Rightarrow> string \<Rightarrow> nat \<Rightarrow> json \<Rightarrow> event list \<Rightarrow> outcome" where
  \<comment> \<open>\<open>await redisClient.setEx(cacheKey, ttl, JSON.stringify(response));
      res.json(response);\<close> (lines 148-150, 178-180, 237-239, 289-291)\<close>
  "cache_store_reply w key ttl response t =
     (let t' = t @ [CacheSetEx key ttl (stringify response)]
      in case redis_setEx w key ttl (stringify response) of
           None \<Rightarrow> error500 w t'
         | Some w' \<Rightarrow> reply 200 response w' t')"

section \<open>The handlers\<close>

text \<open>
  Each handler is the body of its \<open>try\<close> block, with the \<open>catch\<close> block as the
  result of every failing call. The outcome holds the response, the world after the
  request and the calls made to the cache and the store.
\<close>

definition list_columns :: "string list" where
  "list_columns =
     [''id'', ''title'', ''video_id'', ''created_date'', ''ai_processing_status'',
      ''r2_source_path'', ''word_count'', ''ai_topics'', ''ai_sentiment'', ''source_type'',
      ''media_type'', ''file_format'', ''file_size'', ''duration_seconds'', ''dimensions'',
      ''thumbnail_url'', ''page_count'', ''author_name'', ''resolution'', ''course_level'',
      ''tags'']"

definition search_columns :: "string list" where
  "search_columns =
     [''id'', ''title'', ''video_id'', ''created_date'', ''ai_processing_status'',
      ''r2_source_path'', ''ai_topics'', ''ai_sentiment'', ''source_type'', ''media_type'',
      ''file_format'', ''author_name'', ''thumbnail_url'']"

definition recent_columns :: "string list" where
  "recent_columns =
     [''id'', ''title'', ''video_id'', ''created_date'', ''ai_processing_status'',
      ''r2_source_path'', ''ai_topics'', ''source_type'', ''media_type'', ''file_format'',
      ''thumbnail_url'', ''author_name'']"

definition author_columns :: "string list" where
  "author_columns =
     [''id'', ''title'', ''video_id'', ''created_date'', ''ai_topics'', ''ai_sentiment'',
      ''source_type'', ''media_type'', ''file_format'', ''author_name'', ''thumbnail_url'']"

definition push_cond ::
  "(nat \<Rightarrow> pred) \<Rightarrow> jsval \<Rightarrow> pred list \<times> jsval list \<times> nat \<Rightarrow> pred list \<times> jsval list \<times> nat" where
  \<comment> \<open>\<open>whereConditions.push(...$n...); queryParams.push(v); paramCount++\<close>\<close>
  "push_cond mk v s = (case s of (conds, args, n) \<Rightarrow> (conds @ [mk n], args @ [v], n + 1))"

definition list_where ::
  "string option \<Rightarrow> string option \<Rightarrow> string option \<Rightarrow> pred list \<times> jsval list \<times> nat" where
  "list_where type format author =
     (let s0 = ([], [], 1);
          s1 = (if truthy type then push_cond TypeIs (VStr (the type)) s0 else s0);
          s2 = (if truthy format then push_cond FormatIs (VStr (the format)) s1 else s1);
          s3 = (if truthy author
                then push_cond AuthorLike (VStr (''%'' @ the author @ ''%'')) s2 else s2)
      in s3)"

definition list_key :: "query \<Rightarrow> string" where
  "list_key q = ''content:'' @ stringify (query_json q)"

definition list_offset :: "query \<Rightarrow> jsnum" where
  "list_offset q =
     js_mul (js_sub (to_number (param_or q ''page'' (VNum (Some 1)))) (Some 1))
            (to_number (param_or q ''limit'' (VNum (Some 50))))"

definition list_miss :: "env \<Rightarrow> world \<Rightarrow> query \<Rightarrow> outcome" where
  \<comment> \<open>lines 89-150: the rest of the \<open>try\<close> block after the cache lookup\<close>
  "list_miss e w q =
     (let type = param q ''type''; format = param q ''format''; author = param q ''author'';
          page = param_or q ''page'' (VNum (Some 1));
          limit = param_or q ''limit'' (VNum (Some 50));
          offset = list_offset q;
          cacheKey = list_key q
      in (case list_where type format author of
              (conds, args, n) \<Rightarrow>
                (case pool_query e w (Count conds) args of
                   Some (CountRow c) \<Rightarrow>
                     (let total = parse_int c;
                          sel = Select (Some list_columns) conds True (Arg n) (Arg (n + 1));
                          args2 = args @ [limit, VNum offset];
                          t = [CacheGet cacheKey, StoreQuery (Count conds) args,
                               StoreQuery sel args2]
                      in case pool_query e w sel args2 of
                           Some (Rows rows) \<Rightarrow>
                             cache_store_reply w cacheKey 300
                               (JObj [(''content'', JArr rows),
                                      (''pagination'',
                                         JObj [(''page'', num_json (parse_int_val page)),
                                               (''limit'', num_json (parse_int_val limit)),
                                               (''total'', num_json total),
                                               (''pages'', num_json (ceil_div total (to_number limit)))]),
                                      (''filters'',
                                         JObj (opt_field ''type'' type @ opt_field ''format'' format
                                               @ opt_field ''author'' author))])
                               t
                         | _ \<Rightarrow> error500 w t)
                 | _ \<Rightarrow> error500 w [CacheGet cacheKey, StoreQuery (Count conds) args])))"

definition list_content :: "env \<Rightarrow> world \<Rightarrow> query \<Rightarrow> outcome" where
  "list_content e w q = cache_lookup e w (list_key q) (list_miss e w q)"

definition id_key :: "string \<Rightarrow> string" where
  "id_key i = ''content:'' @ i"

definition by_id_select :: stmt where
  \<comment> \<open>\<open>SELECT * FROM content WHERE id = $1\<close>\<close>
  "by_id_select = Select None [IdIs 1] False NoBound NoBound"

definition not_found :: json where
  "not_found = JObj [(''error'', JStr ''Content not found'')]"

definition by_id_miss :: "env \<Rightarrow> world \<Rightarrow> string \<Rightarrow> outcome" where
  \<comment> \<open>lines 169-180\<close>
  "by_id_miss e w i =
     (let cacheKey = id_key i;
          sel = by_id_select;
          t = [CacheGet cacheKey, StoreQuery sel [VStr i]]
      in (case pool_query e w sel [VStr i] of
              Some (Rows rows) \<Rightarrow>
                (case rows of
                   [] \<Rightarrow> reply 404 not_found w t
                 | content # _ \<Rightarrow> cache_store_reply w cacheKey 600 content t)
            | _ \<Rightarrow> error500 w t))"

definition content_by_id :: "env \<Rightarrow> world \<Rightarrow> string \<Rightarrow> outcome" where
  "content_by_id e w i = cache_lookup e w (id_key i) (by_id_miss e w i)"

definition undefined_or :: "string option \<Rightarrow> string" where
  \<comment> \<open>a template literal writes a missing value as the text undefined\<close>
  "undefined_or v = (case v of None \<Rightarrow> ''undefined'' | Some s \<Rightarrow> s)"

definition search_key :: "query \<Rightarrow> string" where
  "search_key q =
     ''search:'' @ undefined_or (param q ''q'') @ '':'' @ undefined_or (param q ''type'')
       @ '':page:'' @ to_string (param_or q ''page'' (VNum (Some 1)))
       @ '':limit:'' @ to_string (param_or q ''limit'' (VNum (Some 20)))"

definition search_miss :: "env \<Rightarrow> world \<Rightarrow> query \<Rightarrow> outcome" where
  \<comment> \<open>lines 205-239\<close>
  "search_miss e w q =
     (let qv = param q ''q''; type = param q ''type'';
          page = param_or q ''page'' (VNum (Some 1));
          limit = param_or q ''limit'' (VNum (Some 20));
          offset = js_mul (js_sub (to_number page) (Some 1)) (to_number limit);
          cacheKey = search_key q;
          args = [VStr (''%'' @ the qv @ ''%''), limit, VNum offset]
                 @ (if truthy type then [VStr (the type)] else []);
          sel = Select (Some search_columns)
                  (TextLike 1 # (if truthy type then [TypeIs 4] else []))
                  True (Arg 2) (Arg 3);
          t = [CacheGet cacheKey, StoreQuery sel args]
      in (case pool_query e w sel args of
            Some (Rows rows) \<Rightarrow>
              cache_store_reply w cacheKey 300
                (JObj [(''query'', JStr (the qv)),
                       (''type'', JStr (if truthy type then the type else ''all'')),
                       (''results'', JArr rows),
                       (''count'', JNum (int (length rows)))])
                t
          | _ \<Rightarrow> error500 w t))"

definition search :: "env \<Rightarrow> world \<Rightarrow> query \<Rightarrow> outcome" where
  "search e w q =
     (if \<not> truthy (param q ''q'') then
        reply 400 (JObj [(''error'', JStr ''Query parameter \"q\" is required'')]) w []
      else cache_lookup e w (search_key q) (search_miss e w q))"

fun obj_set :: "(string \<times> 'a) list \<Rightarrow> string \<Rightarrow> 'a \<Rightarrow> (string \<times> 'a) list" where
  "obj_set [] k v = [(k, v)]"
| "obj_set ((k', v') # kvs) k v =
     (if k' = k then (k, v) # kvs else (k', v') # obj_set kvs k v)"

definition js_assign :: "(string \<times> 'a) list \<Rightarrow> string \<Rightarrow> 'a \<Rightarrow> (string \<times> 'a) list" where
  \<comment> \<open>\<open>obj[k] = v\<close> on an object literal: the name __proto__ is the accessor inherited
      from Object.prototype, and assigning a number to it creates no property. Properties
      are kept in the order of their creation (JavaScript lists array-index names first).\<close>
  "js_assign obj k v = (if k = ''__proto__'' then obj else obj_set obj k v)"

definition prop_key :: "string option \<Rightarrow> string" where
  "prop_key k = (case k of None \<Rightarrow> ''null'' | Some s \<Rightarrow> s)"

definition count_object :: "(string option \<times> string) list \<Rightarrow> (string \<times> jsnum) list" where
  \<comment> \<open>\<open>rows.forEach(row => { counts[row.key] = parseInt(row.count); })\<close>\<close>
  "count_object rows = foldl (\<lambda>obj (k, c). js_assign obj (prop_key k) (parse_int c)) [] rows"

definition counts_json :: "(string \<times> jsnum) list \<Rightarrow> json" where
  "counts_json obj = JObj (map (\<lambda>(k, n). (k, num_json n)) obj)"

fun json_truthy :: "json \<Rightarrow> bool" where
  "json_truthy JNull = False"
| "json_truthy (JBool b) = b"
| "json_truthy (JNum n) = (n \<noteq> 0)"
| "json_truthy (JStr s) = (s \<noteq> [])"
| "json_truthy _ = True"

definition latest_date :: "json list \<Rightarrow> json" where
  \<comment> \<open>\<open>rows[0]?.created_date || null\<close>\<close>
  "latest_date rows =
     (case rows of
        JObj kvs # _ \<Rightarrow>
          (case map_of kvs ''created_date'' of
             Some v \<Rightarrow> if json_truthy v then v else JNull
           | None \<Rightarrow> JNull)
      | _ \<Rightarrow> JNull)"

definition round_avg :: "rat option \<Rightarrow> int" where
  \<comment> \<open>\<open>Math.round(parseFloat(avg) || 0)\<close>\<close>
  "round_avg a = (case a of None \<Rightarrow> 0 | Some x \<Rightarrow> \<lfloor>x + 1 / 2\<rfloor>)"

fun the_count :: "result option \<Rightarrow> string option" where
  "the_count (Some (CountRow c)) = Some c"
| "the_count _ = None"

fun the_groups :: "result option \<Rightarrow> (string option \<times> string) list option" where
  "the_groups (Some (GroupRows g)) = Some g"
| "the_groups _ = None"

fun the_avg :: "result option \<Rightarrow> rat option option" where
  "the_avg (Some (AvgRow a)) = Some a"
| "the_avg _ = None"

fun the_rows :: "result option \<Rightarrow> json list option" where
  "the_rows (Some (Rows rs)) = Some rs"
| "the_rows _ = None"

definition stats_key :: string where
  "stats_key = ''stats:warehouse''"

definition stats_queries :: "(stmt \<times> jsval list) list" where
  "stats_queries =
     [(Count [], []),
      (GroupCount BySource [], []),
      (GroupCount ByMedia [MediaNotNull], []),
      (Count [StatusIs 1], [VStr ''completed'']),
      (Count [StatusIs 1], [VStr ''pending'']),
      (AvgWordCount, []),
      (Select (Some [''created_date'']) [] True (Literal 1) NoBound, [])]"

definition stats_body ::
  "string \<Rightarrow> string \<Rightarrow> (string option \<times> string) list \<Rightarrow> (string option \<times> string) list \<Rightarrow>
   string \<Rightarrow> string \<Rightarrow> rat option \<Rightarrow> json list \<Rightarrow> json" where
  "stats_body stamp c0 g1 g2 c3 c4 a latest =
     JObj [(''total_content'', num_json (parse_int c0)),
           (''content_by_source_type'', counts_json (count_object g1)),
           (''content_by_media_type'', counts_json (count_object g2)),
           (''processed_content'', num_json (parse_int c3)),
           (''pending_content'', num_json (parse_int c4)),
           (''average_word_count'', JNum (round_avg a)),
           (''latest_content'', latest_date latest),
           (''last_updated'', JStr stamp)]"

definition stats_miss :: "env \<Rightarrow> world \<Rightarrow> outcome" where
  \<comment> \<open>lines 256-291; \<open>Promise.all\<close> starts the seven queries and rejects when one of
      them does\<close>
  "stats_miss e w =
     (let t = CacheGet stats_key # map (\<lambda>(s, a). StoreQuery s a) stats_queries;
          r = map (\<lambda>(s, a). pool_query e w s a) stats_queries
      in (case (the_count (r ! 0), the_groups (r ! 1), the_groups (r ! 2), the_count (r ! 3),
                  the_count (r ! 4), the_avg (r ! 5), the_rows (r ! 6)) of
              (Some c0, Some g1, Some g2, Some c3, Some c4, Some a, Some latest) \<Rightarrow>
                cache_store_reply w stats_key 120
                  (stats_body (iso_time e (now w)) c0 g1 g2 c3 c4 a latest) t
            | _ \<Rightarrow> error500 w t))"

definition stats :: "env \<Rightarrow> world \<Rightarrow> outcome" where
  "stats e w = cache_lookup e w stats_key (stats_miss e w)"

definition recent :: "env \<Rightarrow> world \<Rightarrow> query \<Rightarrow> outcome" where
  "recent e w q =
     (let limit = param_or q ''limit'' (VNum (Some 10)); type = param q ''type'';
          args = limit # (if truthy type then [VStr (the type)] else []);
          sel = Select (Some recent_columns) (if truthy type then [TypeIs 2] else [])
                  True (Arg 1) NoBound;
          t = [StoreQuery sel args]
      in case pool_query e w sel args of
           Some (Rows rows) \<Rightarrow>
             reply 200
               (JObj [(''recent_content'', JArr rows),
                      (''count'', JNum (int (length rows))),
                      (''type'', JStr (if truthy type then the type else ''all''))])
               w t
         | _ \<Rightarrow> error500 w t)"

definition by_author :: "env \<Rightarrow> world \<Rightarrow> query \<Rightarrow> outcome" where
  "by_author e w q =
     (let author = param q ''author''
      in if \<not> truthy author then
           reply 400 (JObj [(''error'', JStr ''Author parameter is required'')]) w []
         else
           (let sel = Select (Some author_columns) [AuthorLike 1] True NoBound NoBound;
                args = [VStr (''%'' @ the author @ ''%'')];
                t = [StoreQuery sel args]
            in case pool_query e w sel args of
                 Some (Rows rows) \<Rightarrow>
                   reply 200
                     (JObj [(''author'', JStr (the author)),
                            (''content'', JArr rows),
                            (''count'', JNum (int (length rows)))])
                     w t
               | _ \<Rightarrow> error500 w t))"

section \<open>Observations on outcomes\<close>

text \<open>
  \<open>live\<close> is the value a lookup finds: present and not expired. \<open>writes\<close> are the
  cache writes of a request, and \<open>failed\<close> is the response of the \<open>catch\<close> block with
  the world unchanged. \<open>field\<close> and \<open>elements\<close> read a property of a JSON object and
  the elements of a JSON array; \<open>sum_of_values\<close> adds up the numbers an object holds.
\<close>

definition live :: "world \<Rightarrow> string \<Rightarrow> string option" where
  "live w k =
     (case cache w k of
        None \<Rightarrow> None
      | Some (v, expires) \<Rightarrow> if now w < expires then Some v else None)"

fun is_write :: "event \<Rightarrow> bool" where
  "is_write (CacheSetEx k t v) = True"
| "is_write _ = False"

fun is_cache_call :: "event \<Rightarrow> bool" where
  "is_cache_call (StoreQuery s a) = False"
| "is_cache_call _ = True"

fun is_query :: "event \<Rightarrow> bool" where
  "is_query (StoreQuery s a) = True"
| "is_query _ = False"

definition writes :: "outcome \<Rightarrow> event list" where
  "writes out = filter is_write (trace out)"

definition failed :: "world \<Rightarrow> outcome \<Rightarrow> bool" where
  "failed w out =
     (status out = 500 \<and> body out = JObj [(''error'', JStr ''Internal server error'')]
      \<and> after out = w)"

definition field :: "json \<Rightarrow> string \<Rightarrow> json" where
  "field j k =
     (case j of
        JObj kvs \<Rightarrow> (case map_of kvs k of Some v \<Rightarrow> v | None \<Rightarrow> JNull)
      | _ \<Rightarrow> JNull)"


fun json_int :: "json \<Rightarrow> int" where
  "json_int (JNum n) = n"
| "json_int _ = 0"

definition sum_of_values :: "json \<Rightarrow> int" where
  "sum_of_values j =
     (case j of JObj kvs \<Rightarrow> sum_list (map (\<lambda>kv. json_int (snd kv)) kvs) | _ \<Rightarrow> 0)"

section \<open>Example worlds\<close>

text \<open>
  A table of one record with an empty cache at time 100; the same with a live cache
  entry under every key, with a failing cache read, with a failing cache write; and
  a table with a second record whose source type is the text \<open>__proto__\<close>.
\<close>

definition demo_env :: env where
  "demo_env =
     \<lparr>ilike = (\<lambda>p s. True), json_parse = (\<lambda>s. Some (JStr s)), iso_time = (\<lambda>n. ''T'')\<rparr>"

definition demo_row :: content where
  "demo_row =
     \<lparr>cid = ''7'', title = Some ''a'', content_text = None, author_name = Some ''Jane'',
      ai_topics = None, source_type = Some ''video'', media_type = None, file_format = None,
      ai_processing_status = Some ''pending'', word_count = Some 7, created_date = 5,
      columns = [(''id'', JNum 7), (''title'', JStr ''a'')]\<rparr>"

definition demo_world :: world where
  "demo_world =
     \<lparr>cache = Map.empty, now = 100, table = [demo_row], cache_get_fails = False,
      cache_set_fails = False, store_fails = False\<rparr>"

definition demo_all_live :: world where
  "demo_all_live = demo_world\<lparr>cache := (\<lambda>k. Some (''x'', 150))\<rparr>"

definition demo_get_down :: world where
  "demo_get_down = demo_world\<lparr>cache_get_fails := True\<rparr>"

definition demo_set_down :: world where
  "demo_set_down = demo_world\<lparr>cache_set_fails := True\<rparr>"

definition proto_row :: content where
  "proto_row = demo_row\<lparr>cid := ''8'', source_type := Some ''__proto__''\<rparr>"

definition proto_world :: world where
  "proto_world = demo_world\<lparr>table := [demo_row, proto_row]\<rparr>"

section \<open>The text of a serialized query object\<close>



definition escaped :: "string \<Rightarrow> string" where
  "escaped s = concat (map escape_char s)"

definition entry :: "string \<times> string \<Rightarrow> string" where
  "entry kv = quote (fst kv) @ CHR '':'' # quote (snd kv)"

definition more_entries :: "(string \<times> string) list \<Rightarrow> string" where
  "more_entries es = concat (map (\<lambda>e. CHR '','' # entry e) es)"

section \<open>Properties\<close>

subsection \<open>Routing\<close>

lemma lower_Nil_iff: "lower s = [] \<longleftrightarrow> s = []"
  by (simp add: lower_def)

lemma lit_shadowed_by_param:
  assumes "match_segs [Lit a, Lit b, Lit c] ss = Some ps" and "c \<noteq> []"
  shows "match_segs [Lit a, Lit b, Param n] ss \<noteq> None"
proof -
  from assms(1) obtain s1 s2 s3 where ss: "ss = [s1, s2, s3]"
    by (cases ss; cases "tl ss"; cases "tl (tl ss)"; cases "tl (tl (tl ss))")
       (auto split: if_splits)
  with assms have "lower s1 = lower a" "lower s2 = lower b" "lower s3 = lower c"
    by (auto split: if_splits)
  moreover from \<open>lower s3 = lower c\<close> \<open>c \<noteq> []\<close> have "s3 \<noteq> []"
    using lower_Nil_iff by metis
  ultimately show ?thesis using ss by simp
qed

lemma first_match_routes_not_shadowed:
  "fst (first_match routes ss) \<noteq> Recent \<and> fst (first_match routes ss) \<noteq> ByAuthor"
proof (cases "match_segs [Lit ''api'', Lit ''content'', Param ''id''] ss")
  case None
  then have "match_segs [Lit ''api'', Lit ''content'', Lit ''recent''] ss = None"
    and "match_segs [Lit ''api'', Lit ''content'', Lit ''by-author''] ss = None"
    using lit_shadowed_by_param[of "''api''" "''content''" _ ss _ "''id''"]
    by (metis list.distinct(1) not_Some_eq)+
  then show ?thesis
    by (simp add: routes_def split: option.splits)
next
  case (Some ps)
  then show ?thesis
    by (simp add: routes_def split: option.splits)
qed

text \<open>
  C1. A GET request for /api/content/recent or /api/content/by-author is dispatched to
  the /api/content/:id handler with id bound to 'recent' resp. 'by-author', and for no
  method and no path does the router ever select the handlers registered at
  /api/content/recent and /api/content/by-author.
\<close>

theorem dedicated_routes_shadowed_by_id_route:
  "dispatch GET ''/api/content/recent'' = (ContentById, [(''id'', ''recent'')])
   \<and> dispatch GET ''/api/content/by-author'' = (ContentById, [(''id'', ''by-author'')])
   \<and> fst (dispatch m p) \<noteq> Recent
   \<and> fst (dispatch m p) \<noteq> ByAuthor"
proof -
  have a: "dispatch GET ''/api/content/recent'' = (ContentById, [(''id'', ''recent'')])"
    by (simp add: dispatch_def path_segments_def routes_def lower_def lower_char_def)
  have b: "dispatch GET ''/api/content/by-author'' = (ContentById, [(''id'', ''by-author'')])"
    by (simp add: dispatch_def path_segments_def routes_def lower_def lower_char_def)
  have c: "fst (dispatch m p) \<noteq> Recent \<and> fst (dispatch m p) \<noteq> ByAuthor"
    using first_match_routes_not_shadowed
    by (simp add: dispatch_def split: option.splits)
  from a b c show ?thesis by simp
qed

subsection \<open>Cache hits\<close>

lemma redis_get_live: "redis_get w k = (if cache_get_fails w then None else Some (live w k))"
  by (simp add: redis_get_def live_def)

lemma cache_lookup_hit:
  assumes "\<not> cache_get_fails w" "live w k = Some s" "s \<noteq> []" "json_parse e s = Some v"
  shows "cache_lookup e w k miss = reply 200 v w [CacheGet k]"
  using assms by (simp add: cache_lookup_def redis_get_live truthy_def)

lemma cache_lookup_fail:
  "cache_get_fails w \<Longrightarrow> cache_lookup e w k miss = error500 w [CacheGet k]"
  by (simp add: cache_lookup_def redis_get_live)

lemma cache_lookup_miss:
  "\<not> cache_get_fails w \<Longrightarrow> \<not> truthy (live w k) \<Longrightarrow> cache_lookup e w k miss = miss"
  by (simp add: cache_lookup_def redis_get_live)

text \<open>
  C8. In every cached read operation (list, get-by-id, search, stats), when the lookup finds
  a present, unexpired value, the handler answers 200 with the deserialized cached value;
  the only outside call of the request is the cache read, so no query reaches the store,
  and the world is unchanged. (The value must be a non-empty text that \<open>JSON.parse\<close>
  accepts; search looks the cache up only when \<open>q\<close> is given.)
\<close>

theorem cache_hit_replays_without_store_query:
  assumes "\<not> cache_get_fails w" and "live w k = Some s" and "s \<noteq> []"
    and "json_parse e s = Some v"
  shows "(k = list_key q \<longrightarrow> list_content e w q = reply 200 v w [CacheGet k])
       \<and> (k = id_key i \<longrightarrow> content_by_id e w i = reply 200 v w [CacheGet k])
       \<and> (k = search_key q \<and> truthy (param q ''q'')
            \<longrightarrow> search e w q = reply 200 v w [CacheGet k])
       \<and> (k = stats_key \<longrightarrow> stats e w = reply 200 v w [CacheGet k])"
  using cache_lookup_hit[OF assms]
  by (auto simp: list_content_def content_by_id_def search_def stats_def)

theorem cache_hit_replays_without_store_query_witness:
  "list_content demo_env demo_all_live [] = reply 200 (JStr ''x'') demo_all_live [CacheGet (list_key [])]
   \<and> content_by_id demo_env demo_all_live ''7''
       = reply 200 (JStr ''x'') demo_all_live [CacheGet (id_key ''7'')]
   \<and> search demo_env demo_all_live [(''q'', ''dog'')]
       = reply 200 (JStr ''x'') demo_all_live [CacheGet (search_key [(''q'', ''dog'')])]
   \<and> stats demo_env demo_all_live = reply 200 (JStr ''x'') demo_all_live [CacheGet stats_key]"
proof -
  have h: "\<not> cache_get_fails demo_all_live" "live demo_all_live k = Some ''x''" "''x'' \<noteq> []"
    "json_parse demo_env ''x'' = Some (JStr ''x'')" for k
    by (simp_all add: demo_all_live_def demo_world_def demo_env_def live_def)
  have q: "truthy (param [(''q'', ''dog'')] ''q'')"
    by (simp add: truthy_def param_def)
  from cache_hit_replays_without_store_query[OF h, of "list_key []" "[]"]
    cache_hit_replays_without_store_query[OF h, of "id_key ''7''" _ "''7''"]
    cache_hit_replays_without_store_query[OF h, of "search_key [(''q'', ''dog'')]" "[(''q'', ''dog'')]"]
    cache_hit_replays_without_store_query[OF h, of stats_key] q
  show ?thesis by simp
qed

subsection \<open>Cache writes and cache failures\<close>

lemma reply_sel [simp]:
  "status (reply s b w t) = s" "body (reply s b w t) = b" "after (reply s b w t) = w"
  "trace (reply s b w t) = t"
  by (simp_all add: reply_def)

lemma error500_sel [simp]:
  "status (error500 w t) = 500" "after (error500 w t) = w" "trace (error500 w t) = t"
  "body (error500 w t) = JObj [(''error'', JStr ''Internal server error'')]"
  by (simp_all add: error500_def)

lemma store_reply_fail:
  "cache_set_fails w \<Longrightarrow>
   cache_store_reply w k ttl r t = error500 w (t @ [CacheSetEx k ttl (stringify r)])"
  by (simp add: cache_store_reply_def redis_setEx_def Let_def)

lemma store_reply_ok:
  "\<not> cache_set_fails w \<Longrightarrow>
   cache_store_reply w k ttl r t =
     reply 200 r (w\<lparr>cache := (cache w)(k \<mapsto> (stringify r, now w + ttl))\<rparr>)
       (t @ [CacheSetEx k ttl (stringify r)])"
  by (simp add: cache_store_reply_def redis_setEx_def Let_def)

lemma store_reply_sel:
  "status (cache_store_reply w k ttl r t) = (if cache_set_fails w then 500 else 200)"
  "body (cache_store_reply w k ttl r t) =
     (if cache_set_fails w then JObj [(''error'', JStr ''Internal server error'')] else r)"
  "after (cache_store_reply w k ttl r t) =
     (if cache_set_fails w then w
      else w\<lparr>cache := (cache w)(k \<mapsto> (stringify r, now w + ttl))\<rparr>)"
  "trace (cache_store_reply w k ttl r t) = t @ [CacheSetEx k ttl (stringify r)]"
  by (cases "cache_set_fails w"; simp add: store_reply_fail store_reply_ok)+

lemmas miss_defs = list_miss_def by_id_miss_def search_miss_def stats_miss_def

lemmas miss_splits = prod.splits option.splits result.splits list.splits

lemma list_miss_writes:
  "filter is_write (trace (list_miss e w q)) = []
   \<or> (\<exists>v. filter is_write (trace (list_miss e w q)) = [CacheSetEx (list_key q) 300 v])"
  by (simp add: list_miss_def Let_def store_reply_sel split: miss_splits)

lemma by_id_miss_writes:
  "filter is_write (trace (by_id_miss e w i)) = []
   \<or> (\<exists>v. filter is_write (trace (by_id_miss e w i)) = [CacheSetEx (id_key i) 600 v])"
  by (simp add: by_id_miss_def Let_def store_reply_sel split: miss_splits)

lemma search_miss_writes:
  "filter is_write (trace (search_miss e w q)) = []
   \<or> (\<exists>v. filter is_write (trace (search_miss e w q)) = [CacheSetEx (search_key q) 300 v])"
  by (simp add: search_miss_def Let_def store_reply_sel split: miss_splits)

lemma stats_miss_writes:
  "filter is_write (trace (stats_miss e w)) = []
   \<or> (\<exists>v. filter is_write (trace (stats_miss e w)) = [CacheSetEx stats_key 120 v])"
  by (simp add: stats_miss_def Let_def store_reply_sel stats_queries_def split: miss_splits)

lemma cache_lookup_cases:
  assumes "P (error500 w [CacheGet k])" and "\<And>v. P (reply 200 v w [CacheGet k])" and "P miss"
  shows "P (cache_lookup e w k miss)"
  using assms by (simp add: cache_lookup_def split: option.splits)

lemma recent_no_cache:
  "filter is_cache_call (trace (recent e w q)) = [] \<and> after (recent e w q) = w"
  by (simp add: recent_def Let_def split: miss_splits)

lemma by_author_no_cache:
  "filter is_cache_call (trace (by_author e w q)) = [] \<and> after (by_author e w q) = w"
  by (simp add: by_author_def Let_def split: miss_splits)

lemma list_miss_stored:
  "\<not> cache_set_fails w \<Longrightarrow> filter is_write (trace (list_miss e w q)) \<noteq> [] \<Longrightarrow>
   cache (after (list_miss e w q)) (list_key q) = Some (stringify (body (list_miss e w q)), now w + 300)"
  by (auto simp: list_miss_def Let_def store_reply_sel split: miss_splits)

lemma by_id_miss_stored:
  "\<not> cache_set_fails w \<Longrightarrow> filter is_write (trace (by_id_miss e w i)) \<noteq> [] \<Longrightarrow>
   cache (after (by_id_miss e w i)) (id_key i) = Some (stringify (body (by_id_miss e w i)), now w + 600)"
  by (auto simp: by_id_miss_def Let_def store_reply_sel split: miss_splits)

lemma search_miss_stored:
  "\<not> cache_set_fails w \<Longrightarrow> filter is_write (trace (search_miss e w q)) \<noteq> [] \<Longrightarrow>
   cache (after (search_miss e w q)) (search_key q)
     = Some (stringify (body (search_miss e w q)), now w + 300)"
  by (cases "truthy (param q ''type'')")
     (auto simp: search_miss_def Let_def store_reply_sel split: miss_splits)

lemma stats_miss_stored:
  "\<not> cache_set_fails w \<Longrightarrow> filter is_write (trace (stats_miss e w)) \<noteq> [] \<Longrightarrow>
   cache (after (stats_miss e w)) stats_key = Some (stringify (body (stats_miss e w)), now w + 120)"
  by (auto simp: stats_miss_def Let_def store_reply_sel stats_queries_def split: miss_splits)

lemma writes_simps [simp]:
  "writes (error500 w t) = filter is_write t" "writes (reply s b w t) = filter is_write t"
  by (simp_all add: writes_def)

lemma failed_error500 [simp]: "failed w (error500 w t)"
  by (simp add: failed_def)

lemma list_miss_set_fails:
  "cache_set_fails w \<Longrightarrow> writes (list_miss e w q) \<noteq> [] \<Longrightarrow> failed w (list_miss e w q)"
  by (auto simp: writes_def failed_def list_miss_def Let_def store_reply_sel split: miss_splits)

lemma by_id_miss_set_fails:
  "cache_set_fails w \<Longrightarrow> writes (by_id_miss e w i) \<noteq> [] \<Longrightarrow> failed w (by_id_miss e w i)"
  by (auto simp: writes_def failed_def by_id_miss_def Let_def store_reply_sel split: miss_splits)

lemma search_miss_set_fails:
  "cache_set_fails w \<Longrightarrow> writes (search_miss e w q) \<noteq> [] \<Longrightarrow> failed w (search_miss e w q)"
  by (cases "truthy (param q ''type'')")
     (auto simp: writes_def failed_def search_miss_def Let_def store_reply_sel split: miss_splits)

lemma stats_miss_set_fails:
  "cache_set_fails w \<Longrightarrow> writes (stats_miss e w) \<noteq> [] \<Longrightarrow> failed w (stats_miss e w)"
  by (auto simp: writes_def failed_def stats_miss_def Let_def store_reply_sel stats_queries_def
      split: miss_splits)

text \<open>
  C4, as the code has it. The cache calls sit inside the handler's single \<open>try\<close> block:
  a failing cache read ends the request with the 500 response before any store query, and
  a failing cache write, attempted after the store read succeeded, ends it with the 500
  response too; the computed result is not returned. The counterexample below shows both
  on the get-by-id handler, next to the same request with a working cache.
\<close>

theorem cache_failure_fails_request:
  "(cache_get_fails w \<longrightarrow>
      list_content e w q = error500 w [CacheGet (list_key q)]
      \<and> content_by_id e w i = error500 w [CacheGet (id_key i)]
      \<and> (truthy (param q ''q'') \<longrightarrow> search e w q = error500 w [CacheGet (search_key q)])
      \<and> stats e w = error500 w [CacheGet stats_key])
   \<and> (cache_set_fails w \<longrightarrow>
      (writes (list_content e w q) \<noteq> [] \<longrightarrow> failed w (list_content e w q))
      \<and> (writes (content_by_id e w i) \<noteq> [] \<longrightarrow> failed w (content_by_id e w i))
      \<and> (writes (search e w q) \<noteq> [] \<longrightarrow> failed w (search e w q))
      \<and> (writes (stats e w) \<noteq> [] \<longrightarrow> failed w (stats e w)))"
proof -
  have get: "cache_get_fails w \<Longrightarrow> cache_lookup e w k miss = error500 w [CacheGet k]" for k miss
    by (rule cache_lookup_fail)
  have lift: "cache_set_fails w \<Longrightarrow> (writes miss \<noteq> [] \<Longrightarrow> failed w miss) \<Longrightarrow>
      writes (cache_lookup e w k miss) \<noteq> [] \<longrightarrow> failed w (cache_lookup e w k miss)" for k miss
    by (rule cache_lookup_cases) auto
  show ?thesis
    using get lift list_miss_set_fails[of w e q] by_id_miss_set_fails[of w e i]
      search_miss_set_fails[of w e q] stats_miss_set_fails[of w e]
    by (auto simp: list_content_def content_by_id_def search_def stats_def)
qed

theorem cache_failure_fails_request_witness:
  "list_content demo_env demo_get_down [] = error500 demo_get_down [CacheGet (list_key [])]
   \<and> content_by_id demo_env demo_get_down ''7'' = error500 demo_get_down [CacheGet (id_key ''7'')]
   \<and> search demo_env demo_get_down [(''q'', ''dog'')]
       = error500 demo_get_down [CacheGet (search_key [(''q'', ''dog'')])]
   \<and> stats demo_env demo_get_down = error500 demo_get_down [CacheGet stats_key]
   \<and> failed demo_set_down (list_content demo_env demo_set_down [])
   \<and> failed demo_set_down (content_by_id demo_env demo_set_down ''7'')
   \<and> failed demo_set_down (search demo_env demo_set_down [(''q'', ''dog'')])
   \<and> failed demo_set_down (stats demo_env demo_set_down)"
proof -
  have a: "cache_get_fails demo_get_down" "cache_set_fails demo_set_down"
    "truthy (param [(''q'', ''dog'')] ''q'')"
    by (simp_all add: demo_get_down_def demo_set_down_def demo_world_def truthy_def param_def)
  have b: "writes (list_content demo_env demo_set_down []) \<noteq> []"
    "writes (content_by_id demo_env demo_set_down ''7'') \<noteq> []"
    "writes (search demo_env demo_set_down [(''q'', ''dog'')]) \<noteq> []"
    "writes (stats demo_env demo_set_down) \<noteq> []"
    by code_simp+
  from cache_failure_fails_request[of demo_get_down demo_env "[]" "''7''"]
    cache_failure_fails_request[of demo_get_down demo_env "[(''q'', ''dog'')]" "''7''"]
    cache_failure_fails_request[of demo_set_down demo_env "[]" "''7''"]
    cache_failure_fails_request[of demo_set_down demo_env "[(''q'', ''dog'')]" "''7''"] a b
  show ?thesis by simp
qed

theorem cache_failure_counterexample:
  "status (content_by_id demo_env demo_world ''7'') = 200
   \<and> status (content_by_id demo_env demo_get_down ''7'') = 500
   \<and> map is_query (trace (content_by_id demo_env demo_set_down ''7'')) = [False, True, False]
   \<and> status (content_by_id demo_env demo_set_down ''7'') = 500"
  by (simp add: content_by_id_def by_id_miss_def cache_lookup_def redis_get_def
        demo_set_down_def demo_get_down_def demo_world_def demo_row_def demo_env_def id_key_def by_id_select_def not_found_def
        truthy_def pool_query_def conds_bound_def bound_at_def matching_def arg_text_def
        window_def row_json_def store_reply_sel Let_def)

subsection \<open>Time to live\<close>

lemma lookup_writes:
  "writes (cache_lookup e w k miss) = [] \<or> writes (cache_lookup e w k miss) = writes miss"
  by (rule cache_lookup_cases) auto

lemma lookup_stored:
  assumes "writes miss \<noteq> [] \<Longrightarrow> cache (after miss) k = Some (stringify (body miss), x)"
  shows "writes (cache_lookup e w k miss) \<noteq> [] \<longrightarrow>
         cache (after (cache_lookup e w k miss)) k
           = Some (stringify (body (cache_lookup e w k miss)), x)"
  by (rule cache_lookup_cases) (use assms in auto)

text \<open>
  C5. Whatever a cached operation writes to the cache, it writes once, under its own key
  and with its own TTL: list 300, get-by-id 600, search 300, stats 120 seconds; when the
  write succeeds the entry holds the serialized response and expires that many seconds
  from now. The recent and by-author handlers make no cache call at all and leave the
  world as it was.
\<close>

theorem ttl_per_operation:
  "(writes (list_content e w q) = []
      \<or> (\<exists>v. writes (list_content e w q) = [CacheSetEx (list_key q) 300 v]))
   \<and> (writes (content_by_id e w i) = []
      \<or> (\<exists>v. writes (content_by_id e w i) = [CacheSetEx (id_key i) 600 v]))
   \<and> (writes (search e w q) = []
      \<or> (\<exists>v. writes (search e w q) = [CacheSetEx (search_key q) 300 v]))
   \<and> (writes (stats e w) = [] \<or> (\<exists>v. writes (stats e w) = [CacheSetEx stats_key 120 v]))
   \<and> (\<not> cache_set_fails w \<longrightarrow>
        (writes (list_content e w q) \<noteq> [] \<longrightarrow>
           cache (after (list_content e w q)) (list_key q)
             = Some (stringify (body (list_content e w q)), now w + 300))
      \<and> (writes (content_by_id e w i) \<noteq> [] \<longrightarrow>
           cache (after (content_by_id e w i)) (id_key i)
             = Some (stringify (body (content_by_id e w i)), now w + 600))
      \<and> (writes (search e w q) \<noteq> [] \<longrightarrow>
           cache (after (search e w q)) (search_key q)
             = Some (stringify (body (search e w q)), now w + 300))
      \<and> (writes (stats e w) \<noteq> [] \<longrightarrow>
           cache (after (stats e w)) stats_key
             = Some (stringify (body (stats e w)), now w + 120)))
   \<and> filter is_cache_call (trace (recent e w q)) = [] \<and> after (recent e w q) = w
   \<and> filter is_cache_call (trace (by_author e w q)) = [] \<and> after (by_author e w q) = w"
proof -
  have w1: "writes (list_content e w q) = []
      \<or> (\<exists>v. writes (list_content e w q) = [CacheSetEx (list_key q) 300 v])"
    using lookup_writes[of e w "list_key q" "list_miss e w q"] list_miss_writes[of e w q]
    by (auto simp: list_content_def writes_def)
  have w2: "writes (content_by_id e w i) = []
      \<or> (\<exists>v. writes (content_by_id e w i) = [CacheSetEx (id_key i) 600 v])"
    using lookup_writes[of e w "id_key i" "by_id_miss e w i"] by_id_miss_writes[of e w i]
    by (auto simp: content_by_id_def writes_def)
  have w3: "writes (search e w q) = []
      \<or> (\<exists>v. writes (search e w q) = [CacheSetEx (search_key q) 300 v])"
    using lookup_writes[of e w "search_key q" "search_miss e w q"] search_miss_writes[of e w q]
    by (auto simp: search_def writes_def)
  have w4: "writes (stats e w) = [] \<or> (\<exists>v. writes (stats e w) = [CacheSetEx stats_key 120 v])"
    using lookup_writes[of e w stats_key "stats_miss e w"] stats_miss_writes[of e w]
    by (auto simp: stats_def writes_def)
  have s1: "writes (list_content e w q) \<noteq> [] \<longrightarrow>
           cache (after (list_content e w q)) (list_key q)
             = Some (stringify (body (list_content e w q)), now w + 300)"
    if "\<not> cache_set_fails w"
    unfolding list_content_def
    by (rule lookup_stored) (use that list_miss_stored[of w e q] in \<open>simp add: writes_def\<close>)
  have s2: "writes (content_by_id e w i) \<noteq> [] \<longrightarrow>
           cache (after (content_by_id e w i)) (id_key i)
             = Some (stringify (body (content_by_id e w i)), now w + 600)"
    if "\<not> cache_set_fails w"
    unfolding content_by_id_def
    by (rule lookup_stored) (use that by_id_miss_stored[of w e i] in \<open>simp add: writes_def\<close>)
  have s3: "writes (search e w q) \<noteq> [] \<longrightarrow>
           cache (after (search e w q)) (search_key q)
             = Some (stringify (body (search e w q)), now w + 300)"
    if "\<not> cache_set_fails w"
  proof (cases "truthy (param q ''q'')")
    case True
    have "writes (cache_lookup e w (search_key q) (search_miss e w q)) \<noteq> [] \<longrightarrow>
         cache (after (cache_lookup e w (search_key q) (search_miss e w q))) (search_key q)
           = Some (stringify (body (cache_lookup e w (search_key q) (search_miss e w q))),
                   now w + 300)"
      by (rule lookup_stored) (use that search_miss_stored[of w e q] in \<open>simp add: writes_def\<close>)
    with True show ?thesis by (simp add: search_def)
  next
    case False
    then show ?thesis by (simp add: search_def)
  qed
  have s4: "writes (stats e w) \<noteq> [] \<longrightarrow>
           cache (after (stats e w)) stats_key
             = Some (stringify (body (stats e w)), now w + 120)"
    if "\<not> cache_set_fails w"
    unfolding stats_def
    by (rule lookup_stored) (use that stats_miss_stored[of w e] in \<open>simp add: writes_def\<close>)
  from w1 w2 w3 w4 s1 s2 s3 s4 recent_no_cache[of e w q] by_author_no_cache[of e w q]
  show ?thesis by blast
qed

theorem ttl_per_operation_witness:
  "cache (after (list_content demo_env demo_world [])) (list_key [])
       = Some (stringify (body (list_content demo_env demo_world [])), 400)
   \<and> cache (after (content_by_id demo_env demo_world ''7'')) (id_key ''7'')
       = Some (stringify (body (content_by_id demo_env demo_world ''7'')), 700)
   \<and> cache (after (search demo_env demo_world [(''q'', ''dog'')])) (search_key [(''q'', ''dog'')])
       = Some (stringify (body (search demo_env demo_world [(''q'', ''dog'')])), 400)
   \<and> cache (after (stats demo_env demo_world)) stats_key
       = Some (stringify (body (stats demo_env demo_world)), 220)"
proof -
  have a: "\<not> cache_set_fails demo_world" "now demo_world = 100"
    by (simp_all add: demo_world_def)
  have b: "writes (list_content demo_env demo_world []) \<noteq> []"
    "writes (content_by_id demo_env demo_world ''7'') \<noteq> []"
    "writes (search demo_env demo_world [(''q'', ''dog'')]) \<noteq> []"
    "writes (stats demo_env demo_world) \<noteq> []"
    by code_simp+
  from ttl_per_operation[of demo_env demo_world "[]" "''7''"]
    ttl_per_operation[of demo_env demo_world "[(''q'', ''dog'')]" "''7''"] a b
  show ?thesis by simp
qed

subsection \<open>Required parameters\<close>



subsection \<open>The limit argument\<close>





lemma lookup_trace:
  "trace (cache_lookup e w k miss) = [CacheGet k] \<or> trace (cache_lookup e w k miss) = trace miss"
  by (rule cache_lookup_cases) auto




subsection \<open>Records that are not found\<close>

lemma by_id_rows:
  "\<not> store_fails w \<Longrightarrow>
   pool_query e w by_id_select [VStr i]
     = Some (Rows (map (row_json None) (filter (\<lambda>r. cid r = i) (table w))))"
  by (simp add: pool_query_def conds_bound_def bound_at_def matching_def arg_text_def
      window_def by_id_select_def)

lemma by_id_miss_not_found:
  assumes "\<not> store_fails w" and "filter (\<lambda>r. cid r = i) (table w) = []"
  shows "by_id_miss e w i = reply 404 not_found w [CacheGet (id_key i), StoreQuery by_id_select [VStr i]]"
  using assms by (simp add: by_id_miss_def by_id_rows Let_def)

lemma by_id_miss_written:
  assumes "CacheSetEx k t v \<in> set (trace (by_id_miss e w i))"
  shows "\<exists>r \<in> set (table w). cid r = i \<and> v = stringify (JObj (columns r))"
proof -
  have nf: "\<not> store_fails w"
    using assms by (auto simp: by_id_miss_def Let_def pool_query_def)
  obtain rs where rs: "rs = filter (\<lambda>r. cid r = i) (table w)" by simp
  show ?thesis
  proof (cases rs)
    case Nil
    with assms nf rs show ?thesis
      by (simp add: by_id_miss_def by_id_rows Let_def)
  next
    case (Cons r rest)
    with rs have "r \<in> set (filter (\<lambda>r. cid r = i) (table w))"
      by (metis list.set_intros(1))
    then have "r \<in> set (table w)" "cid r = i"
      by simp_all
    moreover have "pool_query e w by_id_select [VStr i]
        = Some (Rows (row_json None r # map (row_json None) rest))"
      using by_id_rows[OF nf, of e i] rs Cons by (metis list.simps(9))
    with assms have "v = stringify (JObj (columns r))"
      by (simp add: by_id_miss_def Let_def store_reply_sel row_json_def)
    ultimately show ?thesis by blast
  qed
qed

text \<open>
  C10. When the get-by-id handler finds no record for the id (cache miss, store answering
  with no row), it answers 404 'Content not found' after one cache read and one store
  query, writes nothing to the cache and leaves the world as it was, so the same request
  made next takes the same path and queries the store again. Whatever the handler does
  write to the cache is the serialized row of a record of the table that has this id.
\<close>

theorem not_found_is_not_cached:
  "(\<not> cache_get_fails w \<and> \<not> store_fails w \<and> \<not> truthy (live w (id_key i))
      \<and> filter (\<lambda>r. cid r = i) (table w) = [] \<longrightarrow>
        content_by_id e w i
          = reply 404 not_found w [CacheGet (id_key i), StoreQuery by_id_select [VStr i]]
        \<and> content_by_id e (after (content_by_id e w i)) i = content_by_id e w i)
   \<and> (status (content_by_id e w i) = 404 \<longrightarrow>
        writes (content_by_id e w i) = [] \<and> after (content_by_id e w i) = w)
   \<and> (CacheSetEx k t v \<in> set (trace (content_by_id e w i)) \<longrightarrow>
        (\<exists>r \<in> set (table w). cid r = i \<and> v = stringify (JObj (columns r))))"
proof -
  have a: "content_by_id e w i
          = reply 404 not_found w [CacheGet (id_key i), StoreQuery by_id_select [VStr i]]"
    if "\<not> cache_get_fails w" "\<not> store_fails w" "\<not> truthy (live w (id_key i))"
       "filter (\<lambda>r. cid r = i) (table w) = []"
    using that by (simp add: content_by_id_def cache_lookup_miss by_id_miss_not_found)
  have b: "writes (content_by_id e w i) = [] \<and> after (content_by_id e w i) = w"
    if "status (content_by_id e w i) = 404"
  proof -
    have m: "status (by_id_miss e w i) = 404 \<longrightarrow>
             writes (by_id_miss e w i) = [] \<and> after (by_id_miss e w i) = w"
      by (auto simp: by_id_miss_def Let_def store_reply_sel writes_def split: miss_splits)
    have "status (cache_lookup e w (id_key i) (by_id_miss e w i)) = 404 \<longrightarrow>
          writes (cache_lookup e w (id_key i) (by_id_miss e w i)) = []
          \<and> after (cache_lookup e w (id_key i) (by_id_miss e w i)) = w"
      by (rule cache_lookup_cases) (use m in auto)
    with that show ?thesis by (simp add: content_by_id_def)
  qed
  have c: "\<exists>r \<in> set (table w). cid r = i \<and> v = stringify (JObj (columns r))"
    if "CacheSetEx k t v \<in> set (trace (content_by_id e w i))"
    using that lookup_trace[of e w "id_key i" "by_id_miss e w i"] by_id_miss_written[of k t v e w i]
    by (auto simp: content_by_id_def)
  show ?thesis
    apply (intro conjI impI)
    subgoal using a by simp
    subgoal using a by simp
    subgoal using b by simp
    subgoal using b by simp
    subgoal using c by simp
    done
qed

theorem not_found_is_not_cached_witness:
  "content_by_id demo_env demo_world ''99999999''
     = reply 404 not_found demo_world
         [CacheGet (id_key ''99999999''), StoreQuery by_id_select [VStr ''99999999'']]
   \<and> CacheSetEx ''content:7'' 600 (stringify (JObj (columns demo_row)))
        \<in> set (trace (content_by_id demo_env demo_world ''7''))
   \<and> status (content_by_id demo_env (demo_world\<lparr>table := []\<rparr>) ''7'') = 404"
proof -
  have a: "\<not> cache_get_fails demo_world \<and> \<not> store_fails demo_world
      \<and> \<not> truthy (live demo_world (id_key ''99999999''))
      \<and> filter (\<lambda>r. cid r = ''99999999'') (table demo_world) = []"
    by (simp add: demo_world_def demo_row_def live_def truthy_def)
  have b: "CacheSetEx ''content:7'' 600 (stringify (JObj (columns demo_row)))
        \<in> set (trace (content_by_id demo_env demo_world ''7''))"
    by (simp add: content_by_id_def by_id_miss_def cache_lookup_def redis_get_def
        demo_world_def demo_row_def demo_env_def id_key_def truthy_def by_id_select_def
        pool_query_def conds_bound_def bound_at_def matching_def arg_text_def window_def
        row_json_def store_reply_sel Let_def)
  have c: "status (content_by_id demo_env (demo_world\<lparr>table := []\<rparr>) ''7'') = 404"
    by (simp add: content_by_id_def by_id_miss_def cache_lookup_def redis_get_def
        demo_world_def demo_env_def id_key_def truthy_def by_id_select_def
        pool_query_def conds_bound_def bound_at_def matching_def arg_text_def window_def
        row_json_def store_reply_sel Let_def)
  from not_found_is_not_cached[of demo_world "''99999999''" demo_env] a b c
  show ?thesis by simp
qed

subsection \<open>Counts travel as text\<close>

lemma of_char_digit_char: "d < 10 \<Longrightarrow> (of_char (digit_char d) :: nat) = 48 + d"
  by (simp add: digit_char_def)

lemma digit_char_props:
  assumes "d < 10"
  shows "is_digit (digit_char d)" "digit_val (digit_char d) = d" "\<not> is_ws (digit_char d)"
    "digit_char d \<noteq> CHR ''-''" "digit_char d \<noteq> CHR ''+''"
    "digit_char d \<noteq> CHR ''x''" "digit_char d \<noteq> CHR ''X''"
proof -
  note oc = of_char_digit_char[OF assms]
  show "is_digit (digit_char d)" using assms by (simp add: is_digit_def oc)
  show "digit_val (digit_char d) = d" by (simp add: digit_val_def oc)
  show "\<not> is_ws (digit_char d)" using assms by (simp add: is_ws_def oc)
  have ne: "digit_char d \<noteq> c" if "(of_char c :: nat) < 48 \<or> 57 < (of_char c :: nat)" for c
    using that oc assms by auto
  show "digit_char d \<noteq> CHR ''-''" by (rule ne) simp
  show "digit_char d \<noteq> CHR ''+''" by (rule ne) simp
  show "digit_char d \<noteq> CHR ''x''" by (rule ne) simp
  show "digit_char d \<noteq> CHR ''X''" by (rule ne) simp
qed

lemma is_digit_props:
  assumes "is_digit c"
  shows "\<not> is_ws c" "c \<noteq> CHR ''-''" "c \<noteq> CHR ''+''" "c \<noteq> CHR ''x''" "c \<noteq> CHR ''X''"
  using assms by (auto simp: is_digit_def is_ws_def Let_def)

lemma show_nat_digits: "show_nat n \<noteq> [] \<and> list_all is_digit (show_nat n)"
proof (induction n rule: show_nat.induct)
  case (1 n)
  show ?case
  proof (cases "n < 10")
    case True
    then show ?thesis by (simp add: show_nat.simps[of n] digit_char_props)
  next
    case False
    with 1 show ?thesis by (simp add: show_nat.simps[of n] digit_char_props)
  qed
qed

lemma dec_value_snoc: "dec_value (s @ [c]) = 10 * dec_value s + digit_val c"
  by (simp add: dec_value_def)

lemma dec_value_show_nat: "dec_value (show_nat n) = n"
proof (induction n rule: show_nat.induct)
  case (1 n)
  show ?case
  proof (cases "n < 10")
    case True
    then show ?thesis by (simp add: show_nat.simps[of n] dec_value_def digit_char_props)
  next
    case False
    with 1 show ?thesis
      by (simp add: show_nat.simps[of n] dec_value_snoc digit_char_props)
  qed
qed

lemma takeWhile_all: "list_all P s \<Longrightarrow> takeWhile P s = s"
  by (induction s) auto

lemma parse_int_digits:
  assumes "s \<noteq> []" and "list_all is_digit s"
  shows "parse_int s = Some (int (dec_value s))"
proof -
  from assms obtain c r where s: "s = c # r" and c: "is_digit c" and r: "list_all is_digit r"
    by (cases s) auto
  have nohex: "\<not> (case s of a # b # r \<Rightarrow> a = CHR ''0'' \<and> (b = CHR ''x'' \<or> b = CHR ''X'')
                          | _ \<Rightarrow> False)"
    using s r is_digit_props by (cases r) auto
  have dw: "dropWhile is_ws s = s"
    using s c is_digit_props(1) by simp
  have hd: "hd s \<noteq> CHR ''-''" "hd s \<noteq> CHR ''+''"
    using s c is_digit_props by auto
  show ?thesis
    unfolding parse_int_def dw Let_def
    using nohex hd assms by (simp add: takeWhile_all)
qed

lemma parse_int_show_nat: "parse_int (show_nat n) = Some (int n)"
  using parse_int_digits[of "show_nat n"] show_nat_digits[of n] dec_value_show_nat[of n]
  by simp

subsection \<open>Pagination of the list operation\<close>








subsection \<open>Statistics\<close>

lemma obj_set_fresh: "k \<notin> fst ` set obj \<Longrightarrow> obj_set obj k v = obj @ [(k, v)]"
  by (induction obj) auto

lemma count_object_distinct_aux:
  assumes "distinct (map fst acc @ map (\<lambda>r. prop_key (fst r)) rows)"
    and "''__proto__'' \<notin> set (map (\<lambda>r. prop_key (fst r)) rows)"
  shows "foldl (\<lambda>obj (k, c). js_assign obj (prop_key k) (parse_int c)) acc rows
         = acc @ map (\<lambda>(k, c). (prop_key k, parse_int c)) rows"
  using assms
proof (induction rows arbitrary: acc)
  case Nil
  then show ?case by simp
next
  case (Cons r rows)
  obtain k c where r: "r = (k, c)" by (cases r)
  from Cons.prems r have fresh: "prop_key k \<notin> fst ` set acc" and np: "prop_key k \<noteq> ''__proto__''"
    by auto
  then have step: "js_assign acc (prop_key k) (parse_int c) = acc @ [(prop_key k, parse_int c)]"
    by (simp add: js_assign_def obj_set_fresh)
  have "distinct (map fst (acc @ [(prop_key k, parse_int c)]) @ map (\<lambda>r. prop_key (fst r)) rows)"
    using Cons.prems(1) r by auto
  moreover have "''__proto__'' \<notin> set (map (\<lambda>r. prop_key (fst r)) rows)"
    using Cons.prems(2) by simp
  ultimately show ?case
    using Cons.IH[of "acc @ [(prop_key k, parse_int c)]"] r step by simp
qed

lemma count_object_distinct:
  assumes "distinct (map (\<lambda>r. prop_key (fst r)) rows)"
    and "''__proto__'' \<notin> set (map (\<lambda>r. prop_key (fst r)) rows)"
  shows "count_object rows = map (\<lambda>(k, c). (prop_key k, parse_int c)) rows"
  using count_object_distinct_aux[of "[]" rows] assms by (simp add: count_object_def)

lemma sum_group_sizes:
  assumes "finite A" and "f ` set rs \<subseteq> A"
  shows "(\<Sum>k\<in>A. length (filter (\<lambda>r. f r = k) rs)) = length rs"
  using assms(2)
proof (induction rs)
  case Nil
  then show ?case by simp
next
  case (Cons r rs)
  have "(\<Sum>k\<in>A. length (filter (\<lambda>x. f x = k) (r # rs)))
        = (\<Sum>k\<in>A. (if f r = k then 1 else 0) + length (filter (\<lambda>x. f x = k) rs))"
    by (rule sum.cong) auto
  also have "\<dots> = (\<Sum>k\<in>A. if f r = k then 1 else 0) + (\<Sum>k\<in>A. length (filter (\<lambda>x. f x = k) rs))"
    by (simp add: sum.distrib)
  also have "(\<Sum>k\<in>A. if f r = k then 1 else 0) = (1::nat)"
    using assms(1) Cons.prems by (simp add: sum.delta')
  finally show ?case using Cons by simp
qed

lemma group_sizes_sum_list:
  "sum_list (map (\<lambda>k. length (filter (\<lambda>r. f r = k) rs)) (remdups (map f rs))) = length rs"
proof -
  have "sum_list (map (\<lambda>k. length (filter (\<lambda>r. f r = k) rs)) (remdups (map f rs)))
        = (\<Sum>k\<in>set (remdups (map f rs)). length (filter (\<lambda>r. f r = k) rs))"
    by (rule sum_list_distinct_conv_sum_set) simp
  also have "\<dots> = length rs"
    by (rule sum_group_sizes) auto
  finally show ?thesis .
qed

lemma int_sum_list_map: "sum_list (map (\<lambda>k. int (g k)) ks) = int (sum_list (map g ks))"
  by (induction ks) simp_all

lemma prop_key_Some_inj:
  assumes "None \<notin> set ks" and "distinct ks"
  shows "distinct (map prop_key ks)"
proof -
  have "inj_on prop_key (set ks)"
  proof (rule inj_onI)
    fix a b assume "a \<in> set ks" "b \<in> set ks" "prop_key a = prop_key b"
    with assms(1) show "a = b" by (cases a; cases b) (auto simp: prop_key_def)
  qed
  with assms(2) show ?thesis by (simp add: distinct_map)
qed

lemma source_counts_sum:
  assumes "list_all (\<lambda>r. source_type r \<noteq> None \<and> source_type r \<noteq> Some ''__proto__'') rs"
  shows "sum_of_values (counts_json (count_object (group_rows BySource rs))) = int (length rs)"
proof -
  let ?ks = "remdups (map source_type rs)"
  let ?n = "\<lambda>k. length (filter (\<lambda>r. source_type r = k) rs)"
  have rows: "group_rows BySource rs = map (\<lambda>k. (k, show_nat (?n k))) ?ks"
  proof -
    have "group_key BySource = source_type" by (rule ext) (simp add: group_key_def)
    then show ?thesis by (simp add: group_rows_def)
  qed
  have keys: "map (\<lambda>r. prop_key (fst r)) (group_rows BySource rs) = map prop_key ?ks"
    by (simp add: rows comp_def)
  from assms have nn: "None \<notin> set ?ks" and np: "Some ''__proto__'' \<notin> set ?ks"
    by (auto simp: list_all_iff)
  have d: "distinct (map prop_key ?ks)"
    using prop_key_Some_inj[OF nn] by simp
  have p: "''__proto__'' \<notin> set (map prop_key ?ks)"
  proof
    assume "''__proto__'' \<in> set (map prop_key ?ks)"
    then have "''__proto__'' \<in> prop_key ` set ?ks" by (simp only: set_map)
    then obtain k where "''__proto__'' = prop_key k" "k \<in> set ?ks" by (rule imageE)
    with nn np show False by (cases k) (auto simp: prop_key_def)
  qed
  have "count_object (group_rows BySource rs)
        = map (\<lambda>(k, c). (prop_key k, parse_int c)) (group_rows BySource rs)"
    using count_object_distinct[of "group_rows BySource rs"] d p keys by simp
  also have "\<dots> = map (\<lambda>k. (prop_key k, Some (int (?n k)))) ?ks"
    by (simp add: rows comp_def parse_int_show_nat)
  finally have "sum_of_values (counts_json (count_object (group_rows BySource rs)))
        = sum_list (map (\<lambda>k. int (?n k)) ?ks)"
    by (simp add: sum_of_values_def counts_json_def comp_def num_json_def)
  also have "\<dots> = int (sum_list (map ?n ?ks))"
    by (rule int_sum_list_map)
  also have "\<dots> = int (length rs)"
    by (simp add: group_sizes_sum_list)
  finally show ?thesis .
qed

lemma stats_miss_computed:
  assumes "\<not> store_fails w" and "\<not> cache_set_fails w"
  shows "status (stats_miss e w) = 200
    \<and> field (body (stats_miss e w)) ''total_content'' = JNum (int (length (table w)))
    \<and> field (body (stats_miss e w)) ''content_by_source_type''
        = counts_json (count_object (group_rows BySource (table w)))"
  using assms
  by (simp add: stats_miss_def stats_queries_def pool_query_def Let_def conds_bound_def
      bound_at_def matching_def store_reply_sel stats_body_def field_def parse_int_show_nat
      num_json_def)

text \<open>
  The statistics handler on its computed path: when no record has a null source type and
  none has the source type \<open>__proto__\<close>, total_content is the number of records and
  equals the sum of the values of content_by_source_type.
\<close>

theorem stats_total_is_sum_of_source_counts:
  assumes "\<not> cache_get_fails w" and "\<not> store_fails w" and "\<not> cache_set_fails w"
    and "\<not> truthy (live w stats_key)"
    and "list_all (\<lambda>r. source_type r \<noteq> None \<and> source_type r \<noteq> Some ''__proto__'') (table w)"
  shows "status (stats e w) = 200
    \<and> field (body (stats e w)) ''total_content'' = JNum (int (length (table w)))
    \<and> sum_of_values (field (body (stats e w)) ''content_by_source_type'')
        = int (length (table w))"
proof -
  have "stats e w = stats_miss e w"
    using assms(1,4) by (simp add: stats_def cache_lookup_miss)
  with stats_miss_computed[OF assms(2,3), of e] source_counts_sum[OF assms(5)]
  show ?thesis by simp
qed

theorem stats_total_is_sum_of_source_counts_witness:
  "field (body (stats demo_env demo_world)) ''total_content'' = JNum 1
   \<and> sum_of_values (field (body (stats demo_env demo_world)) ''content_by_source_type'') = 1"
proof -
  have "\<not> cache_get_fails demo_world" "\<not> store_fails demo_world"
    "\<not> cache_set_fails demo_world" "\<not> truthy (live demo_world stats_key)"
    "list_all (\<lambda>r. source_type r \<noteq> None \<and> source_type r \<noteq> Some ''__proto__'')
       (table demo_world)"
    by (simp_all add: demo_world_def demo_row_def live_def truthy_def)
  from stats_total_is_sum_of_source_counts[OF this, of demo_env]
  show ?thesis by (simp add: demo_world_def)
qed

text \<open>
  C9 at a table in which every record has a non-null source type, one of them the text
  \<open>__proto__\<close>: the handler counts two records in total_content, but the assignment
  \<open>sourceTypeCounts['__proto__'] = 1\<close> creates no property, so content_by_source_type
  holds the other source type only and its values sum to one.
\<close>

theorem stats_drops_proto_source_type:
  "list_all (\<lambda>r. source_type r \<noteq> None) (table proto_world)
   \<and> status (stats demo_env proto_world) = 200
   \<and> field (body (stats demo_env proto_world)) ''total_content'' = JNum 2
   \<and> field (body (stats demo_env proto_world)) ''content_by_source_type''
       = JObj [(''video'', JNum 1)]
   \<and> sum_of_values (field (body (stats demo_env proto_world)) ''content_by_source_type'') = 1"
  by code_simp

subsection \<open>Cache keys\<close>









lemma escaped_simps [simp]:
  "escaped [] = []" "escaped (c # s) = escape_char c @ escaped s"
  by (simp_all add: escaped_def)




lemma more_entries_simps [simp]:
  "more_entries [] = []" "more_entries (e # es) = CHR '','' # entry e @ more_entries es"
  by (simp_all add: more_entries_def)









end
